theory Spec2Isabelle
  imports Main "HOL-Library.FSet"
begin

section \<open>The site crawler of scraper.py\<close>

text \<open>
  A shallow embedding of \<^verbatim>\<open>src/scraper.py\<close>: the classes \<^verbatim>\<open>Database\<close> and
  \<^verbatim>\<open>SiteCrawler\<close>, with the loop of \<^verbatim>\<open>SiteCrawler.crawl\<close> as a recursive function on
  an explicit state.

  What the script takes from libraries (\<^verbatim>\<open>urllib.parse\<close>, \<^verbatim>\<open>requests\<close>, \<^verbatim>\<open>bs4\<close>, the
  clock) is a parameter of the model, collected in the record \<open>env\<close>; every theorem
  holds for every such environment. Three library behaviours that decide what the
  crawler does are modelled as they are documented: SQLite's enforcement of the
  foreign keys of the schema, the first three tests of
  \<^verbatim>\<open>RobotFileParser.can_fetch\<close>, and \<^verbatim>\<open>Response.ok\<close>.

  Not modelled: the pause \<^verbatim>\<open>time.sleep(self.delay)\<close> (it changes nothing of the state
  below; the delay is taken to be non-negative), logging, and faults of the machine
  (a full disk, a locked database file, an interrupt).
\<close>

subsection \<open>Strings\<close>

text \<open>\<^verbatim>\<open>s.rstrip("/")\<close>\<close>

definition rstrip_slash :: "string \<Rightarrow> string" where
  "rstrip_slash s = rev (dropWhile (\<lambda>c. c = CHR ''/'') (rev s))"

text \<open>\<^verbatim>\<open>s.endswith(t)\<close>\<close>

definition endswith :: "string \<Rightarrow> string \<Rightarrow> bool" where
  "endswith s t = (length t \<le> length s \<and> drop (length s - length t) s = t)"

text \<open>\<^verbatim>\<open>t in s\<close> for strings: \<open>t\<close> occurs in \<open>s\<close> as a substring.\<close>

fun str_contains :: "string \<Rightarrow> string \<Rightarrow> bool" where
  "str_contains [] t = (t = [])"
| "str_contains (c # cs) t = (take (length t) (c # cs) = t \<or> str_contains cs t)"

text \<open>\<^verbatim>\<open>s.split(";")[0]\<close>\<close>

definition split_semicolon_0 :: "string \<Rightarrow> string" where
  "split_semicolon_0 s = takeWhile (\<lambda>c. c \<noteq> CHR '';'') s"

text \<open>\<^verbatim>\<open>response.headers.get("Content-Type", "").split(";")[0]\<close>\<close>

definition content_type_of :: "string option \<Rightarrow> string" where
  "content_type_of hdr = split_semicolon_0 (case hdr of None \<Rightarrow> [] | Some h \<Rightarrow> h)"

text \<open>
  A Python \<^verbatim>\<open>set\<close> that the code iterates over (\<^verbatim>\<open>links_to_store\<close>) is a list without
  repetitions, in the order of insertion; \<^verbatim>\<open>add\<close> leaves the set as it is when the
  element is there. (CPython's iteration order is another one; no theorem below
  depends on the order.) The set \<^verbatim>\<open>visited\<close>, which is only tested for membership and
  measured, is a finite set.
\<close>

definition set_add :: "string \<Rightarrow> string list \<Rightarrow> string list" where
  "set_add x xs = (if x \<in> set xs then xs else xs @ [x])"

subsection \<open>The environment\<close>

text \<open>The two fields of \<^verbatim>\<open>urlparse(url)\<close> that the crawler reads.\<close>

record parse_result =
  scheme :: string
  netloc :: string

text \<open>
  The result of \<^verbatim>\<open>session.get(url, timeout=...)\<close>: it raises a
  \<^verbatim>\<open>requests.RequestException\<close>, or returns a response, of which the crawler reads
  \<^verbatim>\<open>status_code\<close>, the header \<^verbatim>\<open>Content-Type\<close> (if present) and \<^verbatim>\<open>text\<close>.
\<close>

datatype get_result =
  RequestException
| Response (resp_status: int) (resp_content_type: "string option") (resp_text: string)

text \<open>
  \<^item> \<open>urlparse\<close>, \<open>urljoin\<close>, \<open>urldefrag\<close>: the functions of \<^verbatim>\<open>urllib.parse\<close>
    (\<open>urldefrag u\<close> is \<^verbatim>\<open>urldefrag(u).url\<close>).
  \<^item> \<open>session_get n url\<close>: what the \<open>n\<close>-th request of the run gives when it asks for
    \<open>url\<close>. Request 0 is the one for \<^verbatim>\<open>robots.txt\<close> in \<^verbatim>\<open>__init__\<close>, request \<open>k \<ge> 1\<close> is
    the \<open>k\<close>-th request of the crawl loop. The web may answer the same URL differently
    at different times.
  \<^item> \<open>utcnow n\<close>: the time stamp \<^verbatim>\<open>datetime.utcnow().isoformat(...) + "Z"\<close> read by the
    call of \<^verbatim>\<open>upsert_page\<close> that is the \<open>n\<close>-th call of a database method in the run.
  \<^item> \<open>soup_title text\<close>: the value of
    \<^verbatim>\<open>soup.title.string.strip() if soup.title and soup.title.string else None\<close> for
    \<^verbatim>\<open>soup = BeautifulSoup(text, "html.parser")\<close>.
  \<^item> \<open>extract_text text\<close>: the value of \<^verbatim>\<open>self._extract_text(soup)\<close>.
  \<^item> \<open>find_all_a_href text\<close>: the values \<^verbatim>\<open>link["href"]\<close> for \<^verbatim>\<open>link\<close> in
    \<^verbatim>\<open>soup.find_all("a", href=True)\<close>, in document order, after \<^verbatim>\<open>_extract_text\<close> has
    removed the script, style and noscript elements from the soup.
  \<^item> \<open>entries_allow text agent url\<close>: the answer of the entries that
    \<^verbatim>\<open>RobotFileParser.parse(text.splitlines())\<close> has built, that is the value of
    \<^verbatim>\<open>can_fetch(agent, url)\<close> from its fourth test on.
\<close>

record env =
  urlparse :: "string \<Rightarrow> parse_result"
  urljoin :: "string \<Rightarrow> string \<Rightarrow> string"
  urldefrag :: "string \<Rightarrow> string"
  session_get :: "nat \<Rightarrow> string \<Rightarrow> get_result"
  utcnow :: "nat \<Rightarrow> string"
  soup_title :: "string \<Rightarrow> string option"
  extract_text :: "string \<Rightarrow> string"
  find_all_a_href :: "string \<Rightarrow> string list"
  entries_allow :: "string \<Rightarrow> string \<Rightarrow> string \<Rightarrow> bool"

text \<open>\<^verbatim>\<open>Response.ok\<close>: the status is not a client or server error.\<close>

definition ok :: "int \<Rightarrow> bool" where
  "ok status = (\<not> (400 \<le> status \<and> status < 600))"

subsection \<open>The robots parser\<close>

text \<open>
  \<^verbatim>\<open>urllib.robotparser.RobotFileParser\<close>, as far as the crawler uses it. A new parser
  has \<^verbatim>\<open>disallow_all = False\<close>, \<^verbatim>\<open>allow_all = False\<close> and \<^verbatim>\<open>last_checked = 0\<close>; only
  \<^verbatim>\<open>read\<close>, which the crawler never calls, sets the first two. \<open>last_checked\<close> says
  whether the field holds a time stamp instead of its initial 0: \<^verbatim>\<open>parse\<close> calls
  \<^verbatim>\<open>modified\<close>, which stores \<^verbatim>\<open>time.time()\<close>.
\<close>

record robot_file_parser =
  disallow_all :: bool
  allow_all :: bool
  last_checked :: bool
  robots_text :: string

definition RobotFileParser :: robot_file_parser where
  "RobotFileParser =
     \<lparr>disallow_all = False, allow_all = False, last_checked = False, robots_text = []\<rparr>"

definition parse :: "robot_file_parser \<Rightarrow> string \<Rightarrow> robot_file_parser" where
  "parse rp txt = rp\<lparr>last_checked := True, robots_text := txt\<rparr>"

definition can_fetch :: "env \<Rightarrow> robot_file_parser \<Rightarrow> string \<Rightarrow> string \<Rightarrow> bool" where
  "can_fetch E rp useragent url =
     (if disallow_all rp then False
      else if allow_all rp then True
      else if \<not> last_checked rp then False
      else entries_allow E (robots_text rp) useragent url)"

subsection \<open>The database\<close>

text \<open>
  The two tables of \<^verbatim>\<open>_create_schema\<close>. \<open>pages\<close> has a unique \<open>url\<close>, so it is a map
  from the URL to the other columns; \<open>links\<close> has no uniqueness constraint, so it is
  the list of its rows in the order of insertion. The \<^verbatim>\<open>id\<close> columns are left out.
\<close>

record page_row =
  status_code :: "int option"
  content_type :: "string option"
  title :: "string option"
  text_content :: "string option"
  fetched_at :: string

record database =
  pages :: "string \<rightharpoonup> page_row"
  links :: "(string \<times> string) list"

datatype error = IntegrityError

text \<open>
  \<^verbatim>\<open>upsert_page\<close>: \<^verbatim>\<open>INSERT ... ON CONFLICT(url) DO UPDATE\<close> replaces the row of the URL.
\<close>

definition upsert_page ::
  "string \<Rightarrow> database \<Rightarrow> string \<Rightarrow> int option \<Rightarrow> string option \<Rightarrow> string option \<Rightarrow>
   string option \<Rightarrow> database" where
  "upsert_page now d url st ct ti tx =
     d\<lparr>pages := (pages d)(url \<mapsto>
        \<lparr>status_code = st, content_type = ct, title = ti, text_content = tx,
         fetched_at = now\<rparr>)\<rparr>"

text \<open>
  \<^verbatim>\<open>insert_links\<close>: one row per element of \<^verbatim>\<open>to_urls\<close>, in one transaction. The
  connection runs with \<^verbatim>\<open>PRAGMA foreign_keys=ON\<close> and both columns of \<open>links\<close>
  reference \<^verbatim>\<open>pages(url)\<close>: a row whose \<open>from_url\<close> or \<open>to_url\<close> is not the URL of a
  row of \<open>pages\<close> makes SQLite raise \<^verbatim>\<open>sqlite3.IntegrityError\<close>, and
  \<^verbatim>\<open>with self.conn\<close> rolls the transaction back and lets the exception through.
\<close>

definition references_ok :: "database \<Rightarrow> string \<Rightarrow> string \<Rightarrow> bool" where
  "references_ok d from_url to_url = (pages d from_url \<noteq> None \<and> pages d to_url \<noteq> None)"

definition insert_links :: "database \<Rightarrow> string \<Rightarrow> string list \<Rightarrow> error + database" where
  "insert_links d from_url to_urls =
     (if list_all (references_ok d from_url) to_urls
      then Inr (d\<lparr>links := links d @ map (Pair from_url) to_urls\<rparr>)
      else Inl IntegrityError)"

subsection \<open>The crawler\<close>

text \<open>
  The fields of a \<^verbatim>\<open>SiteCrawler\<close> that \<^verbatim>\<open>allowed_url\<close> and \<^verbatim>\<open>crawl\<close> read; \<open>user_agent\<close> is
  \<^verbatim>\<open>self.session.headers.get("User-Agent", "*")\<close>.
\<close>

record site_crawler =
  base_url :: string
  parsed_base :: parse_result
  max_pages :: int
  include_subdomains :: bool
  user_agent :: string
  robot_parser :: "robot_file_parser option"

definition DEFAULT_USER_AGENT :: string where
  "DEFAULT_USER_AGENT = ''Mozilla/5.0 (compatible; SiteCrawler/1.0; +https://example.com/bot)''"

text \<open>
  \<^verbatim>\<open>SiteCrawler.__init__\<close>, called as \<^verbatim>\<open>main\<close> does, without \<^verbatim>\<open>headers\<close>. With
  \<^verbatim>\<open>respect_robots\<close> a parser is created and \<^verbatim>\<open>robots.txt\<close> is requested; the parser
  parses the answer if there is one and it is \<^verbatim>\<open>ok\<close>, and stays as created if the
  request raises (the exception is suppressed) or the answer is not \<^verbatim>\<open>ok\<close>.
\<close>

definition SiteCrawler_init :: "env \<Rightarrow> string \<Rightarrow> int \<Rightarrow> bool \<Rightarrow> bool \<Rightarrow> site_crawler" where
  "SiteCrawler_init E url maxp subdomains respect_robots =
     (let base = rstrip_slash url in
      \<lparr>base_url = base,
       parsed_base = urlparse E base,
       max_pages = maxp,
       include_subdomains = subdomains,
       user_agent = DEFAULT_USER_AGENT,
       robot_parser =
         (if respect_robots
          then Some (case session_get E 0 (urljoin E base ''/robots.txt'') of
                       RequestException \<Rightarrow> RobotFileParser
                     | Response status hdr txt \<Rightarrow>
                         if ok status then parse RobotFileParser txt else RobotFileParser)
          else None)\<rparr>)"

definition allowed_url :: "site_crawler \<Rightarrow> env \<Rightarrow> string \<Rightarrow> bool" where
  "allowed_url C E url =
     (let parsed = urlparse E url in
      if scheme parsed \<noteq> ''http'' \<and> scheme parsed \<noteq> ''https'' then False
      else if netloc parsed = [] then False
      else if (if include_subdomains C
               then \<not> endswith (netloc parsed) (netloc (parsed_base C))
               else netloc parsed \<noteq> netloc (parsed_base C)) then False
      else if (case robot_parser C of
                 None \<Rightarrow> False
               | Some rp \<Rightarrow> \<not> can_fetch E rp (user_agent C) url) then False
      else True)"

subsection \<open>The crawl loop\<close>

text \<open>A call of a method of the database, with its arguments.\<close>

datatype sink_call =
  UpsertPage string "int option" "string option" "string option" "string option"
| InsertLinks string "string list"

text \<open>
  The state of \<^verbatim>\<open>crawl\<close>: the local variables \<open>queue\<close> and \<open>visited\<close> and the
  database, and four logs that the code does not keep but that its effects define:
  \<open>fetched\<close>, the URLs passed to \<^verbatim>\<open>session.get\<close> by the loop; \<open>enqueued\<close>, the
  arguments of \<^verbatim>\<open>queue.append\<close>; \<open>sink\<close>, the calls of \<^verbatim>\<open>upsert_page\<close> and
  \<^verbatim>\<open>insert_links\<close>; \<open>iterations\<close>, the number of times the loop body was entered.
\<close>

record crawl_state =
  queue :: "string list"
  visited :: "string fset"
  db :: database
  fetched :: "string list"
  enqueued :: "string list"
  sink :: "sink_call list"
  iterations :: nat

text \<open>How \<^verbatim>\<open>crawl\<close> ends: it returns, or an exception leaves it.\<close>

datatype outcome = Done crawl_state | Raised error crawl_state

fun state_of :: "outcome \<Rightarrow> crawl_state" where
  "state_of (Done s) = s"
| "state_of (Raised e s) = s"


text \<open>
  The \<^verbatim>\<open>for link in soup.find_all("a", href=True)\<close> loop over the hrefs of the page
  \<open>url\<close>; \<open>ls\<close> is \<^verbatim>\<open>links_to_store\<close>.
\<close>

fun collect_links ::
  "site_crawler \<Rightarrow> env \<Rightarrow> string \<Rightarrow> string list \<Rightarrow> crawl_state \<times> string list \<Rightarrow>
   crawl_state \<times> string list" where
  "collect_links C E url [] (s, ls) = (s, ls)"
| "collect_links C E url (href # hrefs) (s, ls) =
     (let next_url = urldefrag E (urljoin E url href) in
      if allowed_url C E next_url \<and> next_url |\<notin>| visited s
      then collect_links C E url hrefs
             (s\<lparr>queue := queue s @ [next_url], enqueued := enqueued s @ [next_url]\<rparr>,
              set_add next_url ls)
      else collect_links C E url hrefs (s, ls))"

text \<open>A call \<^verbatim>\<open>self.db.upsert_page(...)\<close>, logged.\<close>

definition call_upsert_page ::
  "env \<Rightarrow> crawl_state \<Rightarrow> string \<Rightarrow> int option \<Rightarrow> string option \<Rightarrow> string option \<Rightarrow>
   string option \<Rightarrow> crawl_state" where
  "call_upsert_page E s url st ct ti tx =
     s\<lparr>db := upsert_page (utcnow E (length (sink s))) (db s) url st ct ti tx,
       sink := sink s @ [UpsertPage url st ct ti tx]\<rparr>"

text \<open>A call \<^verbatim>\<open>self.db.insert_links(url, links_to_store)\<close>, logged.\<close>

definition call_insert_links :: "crawl_state \<Rightarrow> string \<Rightarrow> string list \<Rightarrow> outcome" where
  "call_insert_links s url ls =
     (let s' = s\<lparr>sink := sink s @ [InsertLinks url ls]\<rparr> in
      case insert_links (db s) url ls of
        Inl e \<Rightarrow> Raised e s'
      | Inr d \<Rightarrow> Done (s'\<lparr>db := d\<rparr>))"

text \<open>
  The body of the loop from \<^verbatim>\<open>visited.add(url)\<close> on: the URL is marked visited and
  requested; a failed request stores a page without data and continues; an answer
  is parsed if its content type contains \<^verbatim>\<open>text/html\<close>, the page is stored, and the
  links, if there are any, are stored after it.
\<close>

definition fetch_page :: "site_crawler \<Rightarrow> env \<Rightarrow> crawl_state \<Rightarrow> string \<Rightarrow> outcome" where
  "fetch_page C E s url =
     (let s2 = s\<lparr>visited := finsert url (visited s), fetched := fetched s @ [url]\<rparr> in
      case session_get E (length (fetched s2)) url of
        RequestException \<Rightarrow> Done (call_upsert_page E s2 url None None None None)
      | Response status hdr txt \<Rightarrow>
          let ctype = content_type_of hdr;
              html = str_contains ctype ''text/html'';
              ti = (if html then soup_title E txt else None);
              tx = (if html then Some (extract_text E txt) else None);
              (s3, ls) = (if html then collect_links C E url (find_all_a_href E txt) (s2, [])
                          else (s2, []));
              s4 = call_upsert_page E s3 url (Some status) (Some ctype) ti tx
          in
          if ls \<noteq> [] then call_insert_links s4 url ls else Done s4)"

text \<open>
  One execution of the body of \<^verbatim>\<open>while queue and len(visited) < self.max_pages\<close>, for
  a state with a non-empty queue. \<open>Done\<close> is the end of the body or a \<^verbatim>\<open>continue\<close>.
\<close>

definition iteration :: "site_crawler \<Rightarrow> env \<Rightarrow> crawl_state \<Rightarrow> outcome" where
  "iteration C E s =
     (let url = urldefrag E (hd (queue s));
          s1 = s\<lparr>queue := tl (queue s), iterations := Suc (iterations s)\<rparr>
      in
      if url |\<in>| visited s1 then Done s1
      else if \<not> allowed_url C E url then Done s1
      else fetch_page C E s1 url)"

text \<open>
  The eligible link targets of the page \<open>url\<close>, in document order: what the loop over
  the hrefs appends to the queue when \<open>vis\<close> is the visited set.
\<close>

definition new_links :: "site_crawler \<Rightarrow> env \<Rightarrow> string \<Rightarrow> string fset \<Rightarrow> string list \<Rightarrow> string list" where
  "new_links C E url vis hrefs =
     filter (\<lambda>u. allowed_url C E u \<and> u |\<notin>| vis) (map (\<lambda>h. urldefrag E (urljoin E url h)) hrefs)"

text \<open>The loop \<^verbatim>\<open>while queue and len(visited) < self.max_pages\<close>.\<close>

function crawl_loop :: "site_crawler \<Rightarrow> env \<Rightarrow> crawl_state \<Rightarrow> outcome" where
  "crawl_loop C E s =
     (if queue s \<noteq> [] \<and> int (fcard (visited s)) < max_pages C
      then (case iteration C E s of
              Raised e s' \<Rightarrow> Raised e s'
            | Done s' \<Rightarrow> crawl_loop C E s')
      else Done s)"
  by pat_completeness auto

lemma collect_links_eq:
  "collect_links C E url hrefs (s, ls) =
     (s\<lparr>queue := queue s @ new_links C E url (visited s) hrefs,
        enqueued := enqueued s @ new_links C E url (visited s) hrefs\<rparr>,
      fold set_add (new_links C E url (visited s) hrefs) ls)"
  by (induction hrefs arbitrary: s ls) (simp_all add: new_links_def Let_def)

text \<open>
  Termination of the loop: an iteration either visits a new URL, and the visited
  set is bounded by the page budget, or it leaves the visited set as it is and
  shortens the queue.
\<close>

lemma fetch_page_visited [simp]:
  "visited (state_of (fetch_page C E s url)) = finsert url (visited s)"
  by (simp add: fetch_page_def Let_def call_upsert_page_def call_insert_links_def
      collect_links_eq split: get_result.split sum.split)

lemma iteration_visited_cases:
  "visited (state_of (iteration C E s)) = visited s \<and>
     queue (state_of (iteration C E s)) = tl (queue s) \<or>
   fcard (visited (state_of (iteration C E s))) = Suc (fcard (visited s))"
  by (simp add: iteration_def Let_def fcard_finsert_disjoint)

termination crawl_loop
proof (relation "measures [\<lambda>(C, E, s). nat (max_pages C - int (fcard (visited s))),
                           \<lambda>(C, E, s). length (queue s)]")
  show "wf (measures [\<lambda>(C, E, s). nat (max_pages C - int (fcard (visited s))),
                      \<lambda>(C, E, s). length (queue s)])"
    by simp
next
  fix C E s s'
  assume "queue s \<noteq> [] \<and> int (fcard (visited s)) < max_pages C" "iteration C E s = Done s'"
  then show "((C, E, s'), (C, E, s)) \<in>
      measures [\<lambda>(C, E, s). nat (max_pages C - int (fcard (visited s))),
                \<lambda>(C, E, s). length (queue s)]"
    using iteration_visited_cases [of C E s] by auto
qed

declare crawl_loop.simps [simp del]

text \<open>
  \<^verbatim>\<open>crawl\<close>: the queue holds the base URL, nothing is visited; \<open>d\<close> is the database
  as \<^verbatim>\<open>main\<close> opened it (empty, or left by an earlier run).
\<close>

definition crawl :: "site_crawler \<Rightarrow> env \<Rightarrow> database \<Rightarrow> outcome" where
  "crawl C E d =
     crawl_loop C E
       \<lparr>queue = [base_url C], visited = {||}, db = d, fetched = [], enqueued = [],
        sink = [], iterations = 0\<rparr>"

subsection \<open>An example site\<close>

text \<open>
  A small web for the concrete runs below. The site \<^verbatim>\<open>https://example.com\<close> has a
  home page in HTML with three anchors: two to its page \<^verbatim>\<open>/about\<close> (one of them with a
  fragment) and one to another host; \<^verbatim>\<open>/about\<close> is plain text; every other request,
  the one for \<^verbatim>\<open>robots.txt\<close> too, fails. The three URL functions agree with
  \<^verbatim>\<open>urllib.parse\<close> on the URLs that occur.
\<close>

definition example_urlparse :: "string \<Rightarrow> parse_result" where
  "example_urlparse u =
     (if u = ''https://example.com'' \<or> u = ''https://example.com/about''
      then \<lparr>scheme = ''https'', netloc = ''example.com''\<rparr>
      else if u = ''https://other.org/x'' then \<lparr>scheme = ''https'', netloc = ''other.org''\<rparr>
      else if u = ''ftp://example.com'' then \<lparr>scheme = ''ftp'', netloc = ''example.com''\<rparr>
      else \<lparr>scheme = [], netloc = []\<rparr>)"

definition example_urljoin :: "string \<Rightarrow> string \<Rightarrow> string" where
  "example_urljoin b h =
     (if h = ''/about'' then ''https://example.com/about''
      else if h = ''/about#team'' then ''https://example.com/about#team''
      else if h = ''/robots.txt'' then ''https://example.com/robots.txt''
      else h)"

definition example_urldefrag :: "string \<Rightarrow> string" where
  "example_urldefrag u = takeWhile (\<lambda>c. c \<noteq> CHR ''#'') u"

definition example_home :: string where
  "example_home = ''<a href=/about>A</a><a href=/about#team>T</a><a href=https://other.org/x>X</a>''"

definition example_get :: "nat \<Rightarrow> string \<Rightarrow> get_result" where
  "example_get n u =
     (if u = ''https://example.com''
      then Response 200 (Some ''text/html; charset=utf-8'') example_home
      else if u = ''https://example.com/about''
      then Response 200 (Some ''text/plain'') ''About''
      else RequestException)"

definition example_web :: env where
  "example_web =
     \<lparr>urlparse = example_urlparse,
      urljoin = example_urljoin,
      urldefrag = example_urldefrag,
      session_get = example_get,
      utcnow = (\<lambda>n. ''2024-01-01T00:00:00Z''),
      soup_title = (\<lambda>t. None),
      extract_text = (\<lambda>t. if t = example_home then ''A T X'' else []),
      find_all_a_href =
        (\<lambda>t. if t = example_home then [''/about'', ''/about#team'', ''https://other.org/x'']
             else []),
      entries_allow = (\<lambda>t a u. True)\<rparr>"


text \<open>A new database, and one in which an earlier run has stored the page \<^verbatim>\<open>/about\<close>.\<close>

definition empty_db :: database where
  "empty_db = \<lparr>pages = Map.empty, links = []\<rparr>"

definition earlier_db :: database where
  "earlier_db =
     \<lparr>pages = [''https://example.com/about'' \<mapsto>
        \<lparr>status_code = Some 200, content_type = Some ''text/plain'', title = None,
         text_content = None, fetched_at = ''2023-12-31T00:00:00Z''\<rparr>],
      links = []\<rparr>"


definition example_crawler_one :: site_crawler where
  "example_crawler_one = SiteCrawler_init example_web ''https://example.com'' 1 False False"

definition example_crawler_robots :: site_crawler where
  "example_crawler_robots = SiteCrawler_init example_web ''https://example.com'' 5 False True"



subsection \<open>Notions of the specification\<close>

text \<open>The URLs of the PageRecords handed to the database, in the order of the calls.\<close>

fun upserted_urls :: "sink_call list \<Rightarrow> string list" where
  "upserted_urls [] = []"
| "upserted_urls (UpsertPage u st ct ti tx # cs) = u # upserted_urls cs"
| "upserted_urls (InsertLinks u ls # cs) = upserted_urls cs"

text \<open>
  The batches of LinkEdges handed to the database: the page and the targets of each
  call of \<^verbatim>\<open>insert_links\<close>.
\<close>

fun batches :: "sink_call list \<Rightarrow> (string \<times> string list) list" where
  "batches [] = []"
| "batches (UpsertPage u st ct ti tx # cs) = batches cs"
| "batches (InsertLinks u ls # cs) = (u, ls) # batches cs"


text \<open>
  The host rule of the Scope Policy, in the words of the specification: the scheme is
  one of the two web schemes, and the host (the \<^verbatim>\<open>netloc\<close>) is the base host or ends
  with it when subdomains are included, and is the base host otherwise.
\<close>

definition in_scope :: "site_crawler \<Rightarrow> env \<Rightarrow> string \<Rightarrow> bool" where
  "in_scope C E u =
     ((scheme (urlparse E u) = ''http'' \<or> scheme (urlparse E u) = ''https'') \<and>
      (if include_subdomains C
       then netloc (urlparse E u) = netloc (parsed_base C) \<or>
            endswith (netloc (urlparse E u)) (netloc (parsed_base C))
       else netloc (urlparse E u) = netloc (parsed_base C)))"

text \<open>
  What the visit of \<open>url\<close> in the state \<open>s\<close> appends to the queue: nothing if the
  request fails or the answer is not HTML, and the eligible, not visited link targets
  of the page otherwise (\<open>url\<close> itself is visited by then).
\<close>

definition link_targets :: "site_crawler \<Rightarrow> env \<Rightarrow> crawl_state \<Rightarrow> string \<Rightarrow> string list" where
  "link_targets C E s url =
     (case session_get E (Suc (length (fetched s))) url of
        RequestException \<Rightarrow> []
      | Response status hdr txt \<Rightarrow>
          if str_contains (content_type_of hdr) ''text/html''
          then new_links C E url (finsert url (visited s)) (find_all_a_href E txt)
          else [])"



text \<open>
  The URLs a run can put into its queue: the base URL, and the eligible link targets
  of the HTML answers to requests for eligible URLs of the queue. The
  reachable eligible URLs are those of them, fragments stripped, that the Scope
  Policy allows: the URLs a run can visit.
\<close>

inductive_set offered :: "site_crawler \<Rightarrow> env \<Rightarrow> string set" for C :: site_crawler and E :: env where
  seed: "base_url C \<in> offered C E"
| link: "q \<in> offered C E \<Longrightarrow> allowed_url C E (urldefrag E q) \<Longrightarrow>
         session_get E n (urldefrag E q) = Response status hdr txt \<Longrightarrow>
         str_contains (content_type_of hdr) ''text/html'' \<Longrightarrow>
         h \<in> set (find_all_a_href E txt) \<Longrightarrow>
         allowed_url C E (urldefrag E (urljoin E (urldefrag E q) h)) \<Longrightarrow>
         urldefrag E (urljoin E (urldefrag E q) h) \<in> offered C E"


subsection \<open>Invariants of the loop\<close>

text \<open>
  The logs and the visited set: the requested URLs are the visited ones, each once
  and each allowed; the PageRecords are those of the requested URLs; every batch of
  links is without repetition and not empty, and no page has two batches.
\<close>

definition logs_ok :: "site_crawler \<Rightarrow> env \<Rightarrow> crawl_state \<Rightarrow> bool" where
  "logs_ok C E s =
     (distinct (fetched s) \<and> set (fetched s) = fset (visited s) \<and>
      list_all (allowed_url C E) (fetched s) \<and>
      upserted_urls (sink s) = fetched s \<and>
      list_all (\<lambda>b. distinct (snd b) \<and> snd b \<noteq> []) (batches (sink s)) \<and>
      distinct (map fst (batches (sink s))) \<and>
      set (map fst (batches (sink s))) \<subseteq> set (fetched s))"


section \<open>Properties\<close>

subsection \<open>The loop, unfolded once\<close>

lemma crawl_loop_stop:
  "queue s = [] \<or> max_pages C \<le> int (fcard (visited s)) \<Longrightarrow> crawl_loop C E s = Done s"
  by (subst crawl_loop.simps) auto

lemma crawl_loop_step:
  "queue s \<noteq> [] \<Longrightarrow> int (fcard (visited s)) < max_pages C \<Longrightarrow>
   crawl_loop C E s =
     (case iteration C E s of Raised e s' \<Rightarrow> Raised e s' | Done s' \<Rightarrow> crawl_loop C E s')"
  by (subst crawl_loop.simps) simp

text \<open>
  The invariant rule of the loop: what holds of the first state and is kept by each
  iteration that the loop condition lets in holds of the last state, whether the loop
  ends or an exception leaves it.
\<close>

lemma crawl_loop_invariant:
  assumes "I s"
    and "\<And>t. I t \<Longrightarrow> queue t \<noteq> [] \<Longrightarrow> int (fcard (visited t)) < max_pages C \<Longrightarrow>
           I (state_of (iteration C E t))"
  shows "I (state_of (crawl_loop C E s))"
  using assms
proof (induction C E s rule: crawl_loop.induct)
  case (1 C E s)
  show ?case
  proof (cases "queue s \<noteq> [] \<and> int (fcard (visited s)) < max_pages C")
    case False
    then have "crawl_loop C E s = Done s"
      by (intro crawl_loop_stop) auto
    then show ?thesis using "1.prems"(1) by simp
  next
    case True
    have step: "I (state_of (iteration C E s))"
      by (rule "1.prems"(2)) (use True "1.prems"(1) in auto)
    show ?thesis
    proof (cases "iteration C E s")
      case (Done s')
      have "I (state_of (crawl_loop C E s'))"
      proof (rule "1.IH")
        show "queue s \<noteq> [] \<and> int (fcard (visited s)) < max_pages C" by (rule True)
        show "iteration C E s = Done s'" by (rule Done)
        show "I s'" using step Done by simp
        show "\<And>t. I t \<Longrightarrow> queue t \<noteq> [] \<Longrightarrow> int (fcard (visited t)) < max_pages C \<Longrightarrow>
           I (state_of (iteration C E t))" by (rule "1.prems"(2))
      qed
      then show ?thesis
        using True Done by (simp add: crawl_loop_step)
    next
      case (Raised e s')
      then show ?thesis
        using True step by (simp add: crawl_loop_step)
    qed
  qed
qed

subsection \<open>What one iteration changes\<close>

lemma fetch_page_fetched [simp]:
  "fetched (state_of (fetch_page C E s url)) = fetched s @ [url]"
  by (simp add: fetch_page_def Let_def call_upsert_page_def call_insert_links_def
      collect_links_eq split: get_result.split sum.split)

lemma fetch_page_iterations [simp]:
  "iterations (state_of (fetch_page C E s url)) = iterations s"
  by (simp add: fetch_page_def Let_def call_upsert_page_def call_insert_links_def
      collect_links_eq split: get_result.split sum.split)

text \<open>
  An iteration is a skip (the URL was visited or is not allowed) or a visit of the
  URL at the head of the queue, which was not visited and is allowed.
\<close>

lemma iteration_cases:
  obtains (skip) "visited (state_of (iteration C E s)) = visited s"
      "fetched (state_of (iteration C E s)) = fetched s"
  | (visit) u where "u = urldefrag E (hd (queue s))" "u |\<notin>| visited s" "allowed_url C E u"
      "visited (state_of (iteration C E s)) = finsert u (visited s)"
      "fetched (state_of (iteration C E s)) = fetched s @ [u]"
  by (cases "urldefrag E (hd (queue s)) |\<in>| visited s \<or>
       \<not> allowed_url C E (urldefrag E (hd (queue s)))")
    (auto simp: iteration_def Let_def)

subsection \<open>The page budget\<close>

text \<open>
  The visited set never has more elements than the budget allows, and every visited
  URL was requested once.
\<close>

lemma visited_le_budget:
  "int (fcard (visited (state_of (crawl C E d)))) \<le> max 0 (max_pages C) \<and>
   length (fetched (state_of (crawl C E d))) = fcard (visited (state_of (crawl C E d)))"
  unfolding crawl_def
proof (rule crawl_loop_invariant
    [where I = "\<lambda>s. int (fcard (visited s)) \<le> max 0 (max_pages C) \<and>
                      length (fetched s) = fcard (visited s)"], goal_cases)
  case 1
  show ?case by (simp add: fcard_fempty)
next
  case (2 t)
  show ?case
  proof (cases rule: iteration_cases [of C E t])
    case skip
    then show ?thesis using 2 by simp
  next
    case (visit u)
    then show ?thesis using 2 by (simp add: fcard_finsert_disjoint)
  qed
qed

text \<open>
  Claim C7, as amended. After any run the number of visited URLs is at most the page
  budget when the budget is not negative, and is 0 when it is negative: it is at
  most the larger of 0 and the budget. The number of requests of the loop is the
  number of visited URLs.
\<close>

theorem budget_respected:
  "int (fcard (visited (state_of (crawl C E d)))) \<le> max 0 (max_pages C) \<and>
   length (fetched (state_of (crawl C E d))) = fcard (visited (state_of (crawl C E d)))"
  by (rule visited_le_budget)

text \<open>
  Claim C7 as stated fails for a negative budget, which \<^verbatim>\<open>--max-pages -1\<close> gives: the
  loop is not entered, and the 0 visited URLs are more than the budget.
\<close>

theorem budget_negative_counterexample:
  "\<not> int (fcard (visited (state_of (crawl
          (SiteCrawler_init example_web ''https://example.com'' (- 1) False False)
          example_web empty_db))))
      \<le> max_pages (SiteCrawler_init example_web ''https://example.com'' (- 1) False False)"
  by (simp add: crawl_def SiteCrawler_init_def crawl_loop_stop Let_def fcard_fempty)

subsection \<open>Lists as sets, and the logs\<close>

lemma set_fold_set_add [simp]: "set (fold set_add xs ls) = set xs \<union> set ls"
  by (induction xs arbitrary: ls) (auto simp: set_add_def)

lemma distinct_fold_set_add: "distinct ls \<Longrightarrow> distinct (fold set_add xs ls)"
  by (induction xs arbitrary: ls) (auto simp: set_add_def)

lemma fold_set_add_Nil_iff [simp]: "fold set_add xs [] = [] \<longleftrightarrow> xs = []"
  using set_fold_set_add [of xs "[]"] by (metis set_empty sup_bot.right_neutral)

lemma upserted_urls_append [simp]:
  "upserted_urls (cs @ ds) = upserted_urls cs @ upserted_urls ds"
  by (induction cs rule: upserted_urls.induct) simp_all

lemma batches_append [simp]: "batches (cs @ ds) = batches cs @ batches ds"
  by (induction cs rule: batches.induct) simp_all



lemma fetch_page_sink:
  "\<exists>st ct ti tx.
     sink (state_of (fetch_page C E s url)) =
       sink s @ UpsertPage url st ct ti tx #
         (if link_targets C E s url = [] then []
          else [InsertLinks url (fold set_add (link_targets C E s url) [])])"
  by (simp add: fetch_page_def link_targets_def Let_def call_upsert_page_def
      call_insert_links_def collect_links_eq split: get_result.split sum.split)



subsection \<open>The two ways through an iteration\<close>

lemma iteration_skip:
  "urldefrag E (hd (queue s)) |\<in>| visited s \<or> \<not> allowed_url C E (urldefrag E (hd (queue s))) \<Longrightarrow>
   iteration C E s = Done (s\<lparr>queue := tl (queue s), iterations := Suc (iterations s)\<rparr>)"
  by (auto simp: iteration_def Let_def)

lemma iteration_visit:
  "urldefrag E (hd (queue s)) |\<notin>| visited s \<Longrightarrow> allowed_url C E (urldefrag E (hd (queue s))) \<Longrightarrow>
   iteration C E s =
     fetch_page C E (s\<lparr>queue := tl (queue s), iterations := Suc (iterations s)\<rparr>)
       (urldefrag E (hd (queue s)))"
  by (simp add: iteration_def Let_def)

lemma link_targets_dequeued [simp]:
  "link_targets C E (s\<lparr>queue := q, iterations := i\<rparr>) url = link_targets C E s url"
  by (simp add: link_targets_def split: get_result.split)

lemma link_targets_allowed: "v \<in> set (link_targets C E s url) \<Longrightarrow> allowed_url C E v"
  by (auto simp: link_targets_def new_links_def split: get_result.splits if_splits)


subsection \<open>The logs agree with the visited set\<close>

lemma logs_ok_dequeued [simp]:
  "logs_ok C E (s\<lparr>queue := q, iterations := i\<rparr>) = logs_ok C E s"
  by (simp add: logs_ok_def)

lemma logs_ok_iteration:
  assumes "logs_ok C E s"
  shows "logs_ok C E (state_of (iteration C E s))"
proof (cases "urldefrag E (hd (queue s)) |\<in>| visited s \<or>
    \<not> allowed_url C E (urldefrag E (hd (queue s)))")
  case True
  then show ?thesis
    using assms by (simp add: iteration_skip)
next
  case False
  define u where "u = urldefrag E (hd (queue s))"
  define s1 where "s1 = s\<lparr>queue := tl (queue s), iterations := Suc (iterations s)\<rparr>"
  define s' where "s' = state_of (fetch_page C E s1 u)"
  have it: "state_of (iteration C E s) = s'"
    using False by (simp add: iteration_visit u_def s1_def s'_def)
  have new: "u |\<notin>| visited s" and ok: "allowed_url C E u"
    using False by (simp_all add: u_def)
  have v: "visited s' = finsert u (visited s)" and f: "fetched s' = fetched s @ [u]"
    by (simp_all add: s'_def s1_def)
  obtain st ct ti tx where k: "sink s' = sink s @ UpsertPage u st ct ti tx #
      (if link_targets C E s u = [] then []
       else [InsertLinks u (fold set_add (link_targets C E s u) [])])"
    using fetch_page_sink [of C E s1 u] by (auto simp: s'_def s1_def)
  have "u \<notin> set (fetched s)"
    using new assms by (simp add: logs_ok_def)
  moreover have "u \<notin> set (map fst (batches (sink s)))"
    using \<open>u \<notin> set (fetched s)\<close> assms by (auto simp: logs_ok_def)
  ultimately have "logs_ok C E s'"
    using assms ok unfolding logs_ok_def v f k
    by (auto simp: distinct_fold_set_add)
  then show ?thesis by (simp add: it)
qed

lemma logs_ok_crawl: "logs_ok C E (state_of (crawl C E d))"
  unfolding crawl_def
proof (rule crawl_loop_invariant [where I = "logs_ok C E"])
  show "logs_ok C E \<lparr>queue = [base_url C], visited = {||}, db = d, fetched = [],
      enqueued = [], sink = [], iterations = 0\<rparr>"
    by (simp add: logs_ok_def)
qed (rule logs_ok_iteration)

lemma fetched_defragmented_crawl:
  "set (fetched (state_of (crawl C E d))) \<subseteq> range (urldefrag E)"
  unfolding crawl_def
proof (rule crawl_loop_invariant [where I = "\<lambda>s. set (fetched s) \<subseteq> range (urldefrag E)"],
    goal_cases)
  case 1
  show ?case by simp
next
  case (2 t)
  show ?case
    by (cases rule: iteration_cases [of C E t]) (use 2 in auto)
qed

subsection \<open>No duplicate visits\<close>

text \<open>
  Claim C6. Across one run, the URLs passed to the Fetch Client by the crawl loop
  contain no repeats. The URLs are compared as the loop passes them, that is after
  \<^verbatim>\<open>urldefrag\<close> has stripped the fragment; stripping the fragments of the fetched URLs
  once more leaves no repeats either, when stripping twice is the same as
  stripping once, as it is for \<^verbatim>\<open>urllib\<close>.
\<close>

theorem no_duplicate_fetches:
  "distinct (fetched (state_of (crawl C E d))) \<and>
   ((\<forall>u. urldefrag E (urldefrag E u) = urldefrag E u) \<longrightarrow>
      distinct (map (urldefrag E) (fetched (state_of (crawl C E d)))))"
proof -
  have d: "distinct (fetched (state_of (crawl C E d)))"
    using logs_ok_crawl [of C E d] by (simp add: logs_ok_def)
  have "map (urldefrag E) (fetched (state_of (crawl C E d))) = fetched (state_of (crawl C E d))"
    if "\<forall>u. urldefrag E (urldefrag E u) = urldefrag E u"
  proof (rule map_idI)
    fix u
    assume "u \<in> set (fetched (state_of (crawl C E d)))"
    then obtain q where "u = urldefrag E q"
      using fetched_defragmented_crawl [of C E d] by auto
    then show "urldefrag E u = u" using that by simp
  qed
  then show ?thesis using d by simp
qed

theorem no_duplicate_fetches_witness:
  "(\<forall>u. urldefrag example_web (urldefrag example_web u) = urldefrag example_web u) \<and>
   fetched (state_of (crawl (SiteCrawler_init example_web ''https://example.com/'' 5 False False)
     example_web earlier_db)) = [''https://example.com'', ''https://example.com/about''] \<and>
   distinct (map (urldefrag example_web)
     (fetched (state_of (crawl (SiteCrawler_init example_web ''https://example.com/'' 5 False False)
       example_web earlier_db))))"
proof -
  have i: "\<forall>u. urldefrag example_web (urldefrag example_web u) = urldefrag example_web u"
    by (simp add: example_web_def example_urldefrag_def)
  have f: "fetched (state_of (crawl (SiteCrawler_init example_web ''https://example.com/'' 5 False False)
     example_web earlier_db)) = [''https://example.com'', ''https://example.com/about'']"
    by code_simp
  show ?thesis
    using i f no_duplicate_fetches
      [of "SiteCrawler_init example_web ''https://example.com/'' 5 False False" example_web earlier_db]
    by blast
qed

subsection \<open>Scope containment\<close>



subsection \<open>The batch of links of a page\<close>

text \<open>
  Claim C10. The batch of LinkEdges emitted for a page contains no target URL twice,
  however often the page's markup contains an href of that target; and no page has
  two batches.
\<close>

theorem link_batch_distinct:
  "(\<forall>b \<in> set (batches (sink (state_of (crawl C E d)))). distinct (snd b)) \<and>
   distinct (map fst (batches (sink (state_of (crawl C E d)))))"
  using logs_ok_crawl [of C E d]
  by (auto simp: logs_ok_def list_all_iff)

theorem link_batch_distinct_witness:
  "find_all_a_href example_web example_home = [''/about'', ''/about#team'', ''https://other.org/x''] \<and>
   batches (sink (state_of (crawl (SiteCrawler_init example_web ''https://example.com/'' 5 False False)
     example_web earlier_db))) = [(''https://example.com'', [''https://example.com/about''])] \<and>
   distinct [''https://example.com/about'']"
proof -
  have h: "find_all_a_href example_web example_home =
      [''/about'', ''/about#team'', ''https://other.org/x'']"
    by (simp add: example_web_def)
  have b: "batches (sink (state_of (crawl (SiteCrawler_init example_web ''https://example.com/'' 5 False False)
     example_web earlier_db))) = [(''https://example.com'', [''https://example.com/about''])]"
    by code_simp
  show ?thesis
    using h b link_batch_distinct
      [of "SiteCrawler_init example_web ''https://example.com/'' 5 False False" example_web earlier_db]
    by simp
qed

subsection \<open>The visited set\<close>





subsection \<open>How a run ends\<close>








subsection \<open>A budget of one page\<close>





subsection \<open>Robots\<close>

text \<open>
  With robots enforcement, a parser that has parsed nothing answers no to every
  question: \<^verbatim>\<open>can_fetch\<close> returns \<^verbatim>\<open>False\<close> as long as \<^verbatim>\<open>last_checked\<close> is 0. So when the
  request for \<^verbatim>\<open>robots.txt\<close> raises, or its answer is not \<^verbatim>\<open>ok\<close>, no URL is allowed.
\<close>

lemma robots_unavailable_blocks_all:
  assumes "case session_get E 0 (urljoin E (rstrip_slash url) ''/robots.txt'') of
             RequestException \<Rightarrow> True
           | Response status hdr txt \<Rightarrow> \<not> ok status"
  shows "\<not> allowed_url (SiteCrawler_init E url maxp sub True) E u"
  using assms
  by (simp add: allowed_url_def SiteCrawler_init_def Let_def can_fetch_def RobotFileParser_def
      split: get_result.splits)

text \<open>
  Claim C2 is not what the code does. The request for \<^verbatim>\<open>robots.txt\<close> of the example
  site raises. The base URL satisfies the scheme and host rule, and the robots check
  alone makes it ineligible: the run requests nothing and stores nothing. Without
  robots enforcement the same base URL is allowed.
\<close>

theorem robots_unreachable_blocks_crawl:
  "session_get example_web 0 (urljoin example_web ''https://example.com'' ''/robots.txt'') =
     RequestException \<and>
   in_scope example_crawler_robots example_web ''https://example.com'' \<and>
   allowed_url example_crawler_one example_web ''https://example.com'' \<and>
   \<not> allowed_url example_crawler_robots example_web ''https://example.com'' \<and>
   fetched (state_of (crawl example_crawler_robots example_web empty_db)) = [] \<and>
   sink (state_of (crawl example_crawler_robots example_web empty_db)) = []"
  by code_simp

subsection \<open>Graceful failure\<close>







subsection \<open>Termination and the amount of work\<close>









end
